theory Spec2Isabelle
  imports Main "HOL-Library.Word"
begin

section \<open>Values of the wire protocol\<close>

text \<open>
  The handler \<open>realtime_transcription\<close> of \<open>openai_server.py\<close> exchanges JSON values with
  its client. A decoded JSON value is what \<open>json.loads\<close> returns: \<open>None\<close>, a bool, an int,
  a float, a str, a list or a dict. A dict is kept as an association list that is read
  with \<open>map_of\<close>. A float is kept as its 64-bit pattern; the handler never looks into one.
  A Python \<open>str\<close> is a \<open>string\<close> with one \<open>char\<close> for each code point, so the texts of
  this development are those whose code points are below 256.
\<close>

datatype json =
    JNull
  | JBool bool
  | JInt int
  | JFloat "64 word"
  | JStr string
  | JArr "json list"
  | JObj "(string \<times> json) list"

type_synonym event = "(string \<times> json) list"

text \<open>The four dict literals that the handler passes to \<open>send_json\<close>.\<close>

definition ready_event :: "int \<Rightarrow> event" where
  "ready_event sr =
     [(''type'', JStr ''ready''),
      (''sample_rate'', JInt sr),
      (''message'',
       JStr ''Ready to receive audio. Send audio chunks as base64-encoded WAV data.'')]"

definition transcription_event :: "string \<Rightarrow> bool \<Rightarrow> event" where
  "transcription_event text final =
     [(''type'', JStr ''transcription''), (''text'', JStr text), (''final'', JBool final)]"

definition error_event :: "string \<Rightarrow> event" where
  "error_event msg = [(''type'', JStr ''error''), (''message'', JStr msg)]"

definition done_event :: event where
  "done_event = [(''type'', JStr ''done'')]"

text \<open>Readers of an outbound event, used to state the properties.\<close>

definition is_transcription :: "event \<Rightarrow> bool" where
  "is_transcription ev = (map_of ev ''type'' = Some (JStr ''transcription''))"

definition is_final :: "event \<Rightarrow> bool" where
  "is_final ev = (is_transcription ev \<and> map_of ev ''final'' = Some (JBool True))"

definition is_partial :: "event \<Rightarrow> bool" where
  "is_partial ev = (is_transcription ev \<and> map_of ev ''final'' = Some (JBool False))"

text \<open>
  The context window the handler asks the engine for, \<open>context_size=(256, 256)\<close>, and the
  JSON value an event would hold if it carried that pair.
\<close>

definition context_size :: "nat \<times> nat" where
  "context_size = (256, 256)"

definition context_size_json :: json where
  "context_size_json = JArr [JInt (int (fst context_size)), JInt (int (snd context_size))]"

section \<open>Python operations the handler calls\<close>

text \<open>
  An exception is kept with the text \<open>str(e)\<close> gives, which is what the handler puts into
  an error event. \<open>WebSocketDisconnect\<close> is a subclass of \<open>Exception\<close> that the inner
  \<open>try\<close> catches first.
\<close>

datatype exn = WebSocketDisconnect string | Exception string

fun str :: "exn \<Rightarrow> string" where
  "str (WebSocketDisconnect m) = m"
| "str (Exception m) = m"

definition quote :: "string \<Rightarrow> string" where
  "quote s = CHR 0x27 # s @ [CHR 0x27]"

fun type_name :: "json \<Rightarrow> string" where
  "type_name JNull = ''NoneType''"
| "type_name (JBool b) = ''bool''"
| "type_name (JInt i) = ''int''"
| "type_name (JFloat f) = ''float''"
| "type_name (JStr s) = ''str''"
| "type_name (JArr xs) = ''list''"
| "type_name (JObj kvs) = ''dict''"

text \<open>\<open>data.get(key)\<close>: only a dict has the method, any other value raises AttributeError.\<close>

fun dict_get :: "json \<Rightarrow> string \<Rightarrow> string + json option" where
  "dict_get (JObj kvs) key = Inr (map_of kvs key)"
| "dict_get j key = Inl (quote (type_name j) @ '' object has no attribute '' @ quote ''get'')"

text \<open>\<open>data[key]\<close> on a dict: a missing key raises KeyError, whose text is the quoted key.\<close>

definition dict_getitem :: "(string \<times> json) list \<Rightarrow> string \<Rightarrow> string + json" where
  "dict_getitem kvs key = (case map_of kvs key of None \<Rightarrow> Inl (quote key) | Some v \<Rightarrow> Inr v)"

text \<open>
  \<open>str.strip()\<close> removes the leading and trailing characters for which \<open>str.isspace\<close>
  holds; below 256 these are the code points 9 to 13, 28 to 32, 0x85 and 0xA0.
\<close>

definition isspace :: "char \<Rightarrow> bool" where
  "isspace ch =
     (let k = (of_char ch :: nat)
      in (9 \<le> k \<and> k \<le> 13) \<or> (28 \<le> k \<and> k \<le> 32) \<or> k = 133 \<or> k = 160)"

definition strip :: "string \<Rightarrow> string" where
  "strip s = rev (dropWhile isspace (rev (dropWhile isspace s)))"

text \<open>
  \<open>np.frombuffer(audio_bytes, dtype=np.float32)\<close>: the buffer is cut into 4-byte
  little-endian elements, and a length that is no multiple of 4 raises ValueError. A
  sample is kept as its 32-bit pattern. \<open>mx.array\<close> converts the array without changing
  its elements.
\<close>

type_synonym byte = "8 word"
type_synonym float32 = "32 word"

fun elements :: "byte list \<Rightarrow> float32 list" where
  "elements (b0 # b1 # b2 # b3 # bs) =
     (ucast b0 + push_bit 8 (ucast b1) + push_bit 16 (ucast b2) + push_bit 24 (ucast b3))
       # elements bs"
| "elements bs = []"

definition frombuffer :: "byte list \<Rightarrow> string + float32 list" where
  "frombuffer audio_bytes =
     (if length audio_bytes mod 4 \<noteq> 0
      then Inl ''buffer size must be a multiple of element size''
      else Inr (elements audio_bytes))"

definition mx_array :: "float32 list \<Rightarrow> float32 list" where
  "mx_array audio_np = audio_np"

section \<open>The collaborators: engine, decoder, transport\<close>

text \<open>
  The recognition engine is outside the repository, so the handler is modelled over any
  engine. \<open>'c\<close> is the state of a streaming context. \<open>transcribe_stream\<close> and \<open>enter\<close>
  (\<open>__enter__\<close>) return a context or raise; \<open>add_audio\<close> returns the context it leaves
  behind and the exception it raised, if any; \<open>result\<close> is \<open>None\<close> when
  \<open>transcriber_context.result\<close> is falsy and \<open>Some t\<close> when it is an object whose
  \<open>text\<close> is \<open>t\<close>.
\<close>

record 'c model =
  sample_rate :: int
  transcribe_stream :: "nat \<times> nat \<Rightarrow> bool \<Rightarrow> string + 'c"
  enter :: "'c \<Rightarrow> string + 'c"
  add_audio :: "'c \<Rightarrow> float32 list \<Rightarrow> 'c \<times> string option"
  result :: "'c \<Rightarrow> string option"

text \<open>
  The module-level \<open>stt_model\<close> is \<open>None\<close> when loading failed. \<open>b64decode\<close> is the
  library function applied to \<open>data["data"]\<close>: it returns bytes or raises.
\<close>

record 'c env =
  stt_model :: "'c model option"
  b64decode :: "json \<Rightarrow> string + byte list"

text \<open>
  The transport. A connection that has failed once stays failed: \<open>capacity\<close> is the
  number of \<open>send_json\<close> calls the peer accepts before the connection is lost (\<open>None\<close>:
  it is never lost), \<open>send_exn k\<close> is what the \<open>k\<close>-th call raises when it fails, and
  \<open>close_exn\<close> is what \<open>websocket.close()\<close> raises, if anything.
\<close>

record transport =
  capacity :: "nat option"
  send_exn :: "nat \<Rightarrow> exn"
  close_exn :: "exn option"

text \<open>
  What \<open>await websocket.receive_text()\<close> followed by \<open>json.loads\<close> yields for one
  iteration of the loop: a frame that decodes to a JSON value, a frame \<open>json.loads\<close>
  rejects, a disconnect, or another exception of \<open>receive_text\<close>.
\<close>

datatype recv =
    Recv_Json json
  | Recv_Malformed string
  | Recv_Disconnect string
  | Recv_Error string

section \<open>The session and what it records\<close>

text \<open>
  Every call the handler makes on a collaborator is appended to a log, in order, as a
  test double would count them. \<open>attempts\<close> counts the calls of \<open>send_json\<close>.
\<close>

datatype action =
    Sent event
  | Send_Failed event
  | Stream_Opened
  | Entered
  | Add_Audio "float32 list"
  | Exit_Called
  | Ws_Closed

record st =
  log :: "action list"
  attempts :: nat

definition init :: st where
  "init = \<lparr>log = [], attempts = 0\<rparr>"

definition record_action :: "action \<Rightarrow> st \<Rightarrow> st" where
  "record_action a s = s\<lparr>log := log s @ [a]\<rparr>"

definition accepts :: "transport \<Rightarrow> nat \<Rightarrow> bool" where
  "accepts tr k = (case capacity tr of None \<Rightarrow> True | Some n \<Rightarrow> k < n)"

definition send_json :: "transport \<Rightarrow> event \<Rightarrow> st \<Rightarrow> exn option \<times> st" where
  "send_json tr ev s =
     (if accepts tr (attempts s)
      then (None, \<lparr>log = log s @ [Sent ev], attempts = Suc (attempts s)\<rparr>)
      else (Some (send_exn tr (attempts s)),
            \<lparr>log = log s @ [Send_Failed ev], attempts = Suc (attempts s)\<rparr>))"

definition ws_close :: "transport \<Rightarrow> st \<Rightarrow> exn option \<times> st" where
  "ws_close tr s = (close_exn tr, record_action Ws_Closed s)"

text \<open>The outbound events the client received, in order.\<close>

fun delivered :: "action list \<Rightarrow> event list" where
  "delivered [] = []"
| "delivered (Sent ev # as) = ev # delivered as"
| "delivered (a # as) = delivered as"

definition outbound :: "st \<Rightarrow> event list" where
  "outbound s = delivered (log s)"

definition count_action :: "action \<Rightarrow> st \<Rightarrow> nat" where
  "count_action a s = length (filter (\<lambda>b. b = a) (log s))"

section \<open>The handler\<close>

text \<open>How the body of the inner \<open>try\<close> (lines 193 to 227) ends.\<close>

datatype 'c flow = Continue 'c st | Break st | Raise exn 'c st

text \<open>The branch for \<open>"audio"\<close>, lines 197 to 217.\<close>

definition audio_branch ::
  "'c env \<Rightarrow> 'c model \<Rightarrow> transport \<Rightarrow> 'c \<Rightarrow> (string \<times> json) list \<Rightarrow> st \<Rightarrow> 'c flow" where
  "audio_branch e m tr c data s =
     (case dict_getitem data ''data'' of
        Inl err \<Rightarrow> Raise (Exception err) c s
      | Inr payload \<Rightarrow>
          (case b64decode e payload of
             Inl err \<Rightarrow> Raise (Exception err) c s
           | Inr audio_bytes \<Rightarrow>
               (case frombuffer audio_bytes of
                  Inl err \<Rightarrow> Raise (Exception err) c s
                | Inr audio_np \<Rightarrow>
                    (let audio_mx = mx_array audio_np;
                         s1 = record_action (Add_Audio audio_mx) s
                     in case add_audio m c audio_mx of
                          (c1, Some err) \<Rightarrow> Raise (Exception err) c1 s1
                        | (c1, None) \<Rightarrow>
                            (case result m c1 of
                               None \<Rightarrow> Continue c1 s1
                             | Some t \<Rightarrow>
                                 if t \<noteq> [] then
                                   (let text = strip t
                                    in if text \<noteq> [] then
                                         (case send_json tr (transcription_event text False) s1 of
                                            (Some x, s2) \<Rightarrow> Raise x c1 s2
                                          | (None, s2) \<Rightarrow> Continue c1 s2)
                                       else Continue c1 s1)
                                 else Continue c1 s1)))))"

text \<open>The branch for \<open>"end"\<close>, lines 220 to 227.\<close>

definition end_branch :: "'c model \<Rightarrow> transport \<Rightarrow> 'c \<Rightarrow> st \<Rightarrow> 'c flow" where
  "end_branch m tr c s =
     (case (case result m c of
              None \<Rightarrow> (None, s)
            | Some t \<Rightarrow>
                if t \<noteq> [] then send_json tr (transcription_event (strip t) True) s
                else (None, s)) of
        (Some x, s1) \<Rightarrow> Raise x c s1
      | (None, s1) \<Rightarrow>
          (case send_json tr done_event s1 of
             (Some x, s2) \<Rightarrow> Raise x c s2
           | (None, s2) \<Rightarrow> Break s2))"

text \<open>
  The body of the inner \<open>try\<close>: receive, decode, dispatch on \<open>data.get("type")\<close>.
  Where \<open>get\<close> has returned, \<open>data\<close> is a dict.
\<close>

definition process :: "'c env \<Rightarrow> 'c model \<Rightarrow> transport \<Rightarrow> 'c \<Rightarrow> recv \<Rightarrow> st \<Rightarrow> 'c flow" where
  "process e m tr c r s =
     (case r of
        Recv_Disconnect why \<Rightarrow> Raise (WebSocketDisconnect why) c s
      | Recv_Error err \<Rightarrow> Raise (Exception err) c s
      | Recv_Malformed err \<Rightarrow> Raise (Exception err) c s
      | Recv_Json data \<Rightarrow>
          (case dict_get data ''type'' of
             Inl err \<Rightarrow> Raise (Exception err) c s
           | Inr ty \<Rightarrow>
               if ty = Some (JStr ''audio'') then
                 (case data of JObj kvs \<Rightarrow> audio_branch e m tr c kvs s | _ \<Rightarrow> Continue c s)
               else if ty = Some (JStr ''end'') then end_branch m tr c s
               else Continue c s))"

text \<open>
  One iteration of \<open>while True\<close> with its two handlers (lines 192 to 234): a disconnect
  breaks, any other exception is reported to the client and the loop goes on; an
  exception of that report leaves the loop.
\<close>

datatype 'c iter = Next 'c st | Stop st | Escape exn st

definition iteration :: "'c env \<Rightarrow> 'c model \<Rightarrow> transport \<Rightarrow> 'c \<Rightarrow> recv \<Rightarrow> st \<Rightarrow> 'c iter" where
  "iteration e m tr c r s =
     (case process e m tr c r s of
        Continue c1 s1 \<Rightarrow> Next c1 s1
      | Break s1 \<Rightarrow> Stop s1
      | Raise (WebSocketDisconnect why) c1 s1 \<Rightarrow> Stop s1
      | Raise (Exception err) c1 s1 \<Rightarrow>
          (case send_json tr (error_event err) s1 of
             (None, s2) \<Rightarrow> Next c1 s2
           | (Some x, s2) \<Rightarrow> Escape x s2))"

text \<open>
  The loop over the frames the client sends. When the frames run out the handler is
  suspended in \<open>receive_text\<close>: it has not left the loop.
\<close>

datatype 'c loop_exit = Awaiting 'c st | Broke st | Escaped exn st

fun loop :: "'c env \<Rightarrow> 'c model \<Rightarrow> transport \<Rightarrow> 'c \<Rightarrow> st \<Rightarrow> recv list \<Rightarrow> 'c loop_exit" where
  "loop e m tr c s [] = Awaiting c s"
| "loop e m tr c s (r # rs) =
     (case iteration e m tr c r s of
        Next c1 s1 \<Rightarrow> loop e m tr c1 s1 rs
      | Stop s1 \<Rightarrow> Broke s1
      | Escape x s1 \<Rightarrow> Escaped x s1)"

text \<open>
  The outer \<open>try\<close> block, lines 176 to 234. The bool tells whether \<open>transcriber\<close> was
  assigned, which the \<open>finally\<close> clause tests.
\<close>

definition try_block ::
  "'c env \<Rightarrow> 'c model \<Rightarrow> transport \<Rightarrow> recv list \<Rightarrow> st \<Rightarrow> bool \<times> 'c loop_exit" where
  "try_block e m tr frames s =
     (case transcribe_stream m context_size False of
        Inl err \<Rightarrow> (False, Escaped (Exception err) s)
      | Inr t \<Rightarrow>
          (let s1 = record_action Stream_Opened s
           in case enter m t of
                Inl err \<Rightarrow> (True, Escaped (Exception err) s1)
              | Inr c \<Rightarrow>
                  (let s2 = record_action Entered s1
                   in case send_json tr (ready_event (sample_rate m)) s2 of
                        (Some x, s3) \<Rightarrow> (True, Escaped x s3)
                      | (None, s3) \<Rightarrow> (True, loop e m tr c s3 frames))))"

text \<open>
  The \<open>finally\<close> clause, lines 239 to 248. An exception of \<open>__exit__\<close> is caught and
  logged, an exception of \<open>close\<close> is dropped, so both calls are made and neither
  changes how the handler ends. A transcriber object is truthy, so \<open>if transcriber\<close>
  holds exactly when \<open>transcribe_stream\<close> has returned.
\<close>

definition finally_clause :: "transport \<Rightarrow> bool \<Rightarrow> st \<Rightarrow> st" where
  "finally_clause tr transcriber s =
     (let s1 = (if transcriber then record_action Exit_Called s else s)
      in snd (ws_close tr s1))"

text \<open>
  How the handler stands after the given frames: still waiting for the next frame with
  its context, returned, or left by an exception.
\<close>

datatype 'c outcome = Waiting 'c | Returned | Raised exn

text \<open>The outer \<open>except Exception\<close> (lines 236 to 238) and \<open>finally\<close>.\<close>

definition finish :: "transport \<Rightarrow> bool \<Rightarrow> 'c loop_exit \<Rightarrow> 'c outcome \<times> st" where
  "finish tr transcriber ex =
     (case ex of
        Awaiting c s \<Rightarrow> (Waiting c, s)
      | Broke s \<Rightarrow> (Returned, finally_clause tr transcriber s)
      | Escaped x s \<Rightarrow>
          (case send_json tr (error_event (str x)) s of
             (None, s1) \<Rightarrow> (Returned, finally_clause tr transcriber s1)
           | (Some y, s1) \<Rightarrow> (Raised y, finally_clause tr transcriber s1)))"

definition realtime_transcription ::
  "'c env \<Rightarrow> transport \<Rightarrow> recv list \<Rightarrow> 'c outcome \<times> st" where
  "realtime_transcription e tr frames =
     (case stt_model e of
        None \<Rightarrow>
          (case send_json tr (error_event ''Model not loaded'') init of
             (Some x, s) \<Rightarrow> (Raised x, s)
           | (None, s) \<Rightarrow>
               (case ws_close tr s of
                  (Some x, s1) \<Rightarrow> (Raised x, s1)
                | (None, s1) \<Rightarrow> (Returned, s1)))
      | Some m \<Rightarrow>
          (case try_block e m tr frames init of
             (transcriber, ex) \<Rightarrow> finish tr transcriber ex))"

section \<open>Notions used to state and prove the properties\<close>

text \<open>The state a loop body, an iteration, the loop ends in, and whether the handler has ended.\<close>

fun flow_st :: "'c flow \<Rightarrow> st" where
  "flow_st (Continue c s) = s"
| "flow_st (Break s) = s"
| "flow_st (Raise x c s) = s"

fun iter_st :: "'c iter \<Rightarrow> st" where
  "iter_st (Next c s) = s"
| "iter_st (Stop s) = s"
| "iter_st (Escape x s) = s"

fun exit_st :: "'c loop_exit \<Rightarrow> st" where
  "exit_st (Awaiting c s) = s"
| "exit_st (Broke s) = s"
| "exit_st (Escaped x s) = s"

fun terminated :: "'c outcome \<Rightarrow> bool" where
  "terminated (Waiting c) = False"
| "terminated Returned = True"
| "terminated (Raised x) = True"

text \<open>
  The calls the loop makes: it sends and it feeds audio. \<open>extends s s1\<close>: the log of
  \<open>s1\<close> is the log of \<open>s\<close> followed by such calls only.
\<close>

fun loop_action :: "action \<Rightarrow> bool" where
  "loop_action (Sent ev) = True"
| "loop_action (Send_Failed ev) = True"
| "loop_action (Add_Audio a) = True"
| "loop_action a = False"

definition extends :: "st \<Rightarrow> st \<Rightarrow> bool" where
  "extends s s1 = (\<exists>xs. log s1 = log s @ xs \<and> list_all loop_action xs)"

text \<open>
  \<open>dead\<close>: the connection is lost. \<open>closing\<close>: what can be delivered from the branch
  for \<open>"end"\<close> on. \<open>shaped\<close>: events without a final transcription, followed by a
  closing.
\<close>

definition dead :: "transport \<Rightarrow> st \<Rightarrow> bool" where
  "dead tr s = (\<not> accepts tr (attempts s))"

definition closing :: "event list \<Rightarrow> bool" where
  "closing fs =
     (fs = [] \<or> fs = [done_event] \<or>
      (\<exists>t. fs = [transcription_event t True] \<or> fs = [transcription_event t True, done_event]))"

definition shaped :: "event list \<Rightarrow> bool" where
  "shaped evs = (\<exists>pre fs. evs = pre @ fs \<and> (\<forall>ev\<in>set pre. \<not> is_final ev) \<and> closing fs)"

text \<open>The events a client has received from the handler after the given frames.\<close>

definition emitted :: "'c env \<Rightarrow> transport \<Rightarrow> recv list \<Rightarrow> event list" where
  "emitted e tr frames = outbound (snd (realtime_transcription e tr frames))"

section \<open>Test doubles\<close>

text \<open>
  An engine that reports the given texts, one more after each chunk, and starts with the
  empty text; a decoder that knows two payloads, of four bytes and of two bytes, and
  rejects every other value as incorrectly padded; a transport that never fails.
\<close>

definition scripted_engine :: "string list \<Rightarrow> (string \<times> string list) model" where
  "scripted_engine texts =
     \<lparr>sample_rate = 16000,
      transcribe_stream = (\<lambda>cs keep. Inr ([], texts)),
      enter = (\<lambda>c. Inr c),
      add_audio = (\<lambda>c a. case snd c of [] \<Rightarrow> (c, None) | t # ts \<Rightarrow> ((t, ts), None)),
      result = (\<lambda>c. Some (fst c))\<rparr>"

definition table_b64decode :: "json \<Rightarrow> string + byte list" where
  "table_b64decode j =
     (if j = JStr ''AACAPw=='' then Inr [0, 0, 128, 63]
      else if j = JStr ''AAA='' then Inr [0, 0]
      else Inl ''Incorrect padding'')"

definition test_env :: "string list \<Rightarrow> (string \<times> string list) env" where
  "test_env texts = \<lparr>stt_model = Some (scripted_engine texts), b64decode = table_b64decode\<rparr>"

definition unloaded_env :: "(string \<times> string list) env" where
  "unloaded_env = \<lparr>stt_model = None, b64decode = table_b64decode\<rparr>"

definition reliable :: transport where
  "reliable = \<lparr>capacity = None, send_exn = (\<lambda>k. WebSocketDisconnect []), close_exn = None\<rparr>"

definition audio_frame :: "string \<Rightarrow> recv" where
  "audio_frame d = Recv_Json (JObj [(''type'', JStr ''audio''), (''data'', JStr d)])"

definition end_frame :: recv where
  "end_frame = Recv_Json (JObj [(''type'', JStr ''end'')])"

section \<open>What one send, one loop body and one iteration deliver\<close>

lemma delivered_append: "delivered (xs @ ys) = delivered xs @ delivered ys"
  by (induction xs rule: delivered.induct) simp_all

lemma outbound_record_action:
  "outbound (record_action a s) = outbound s @ delivered [a]"
  by (simp add: outbound_def record_action_def delivered_append)

lemma attempts_record_action: "attempts (record_action a s) = attempts s"
  by (simp add: record_action_def)

lemma accepts_Suc: "accepts tr (Suc k) \<Longrightarrow> accepts tr k"
  by (auto simp: accepts_def split: option.splits)

lemma send_json_None:
  "send_json tr ev s = (None, s1) \<Longrightarrow>
     accepts tr (attempts s) \<and> s1 = \<lparr>log = log s @ [Sent ev], attempts = Suc (attempts s)\<rparr>"
  by (auto simp: send_json_def split: if_splits)

lemma send_json_Some:
  "send_json tr ev s = (Some x, s1) \<Longrightarrow>
     \<not> accepts tr (attempts s) \<and> x = send_exn tr (attempts s) \<and>
     s1 = \<lparr>log = log s @ [Send_Failed ev], attempts = Suc (attempts s)\<rparr>"
  by (auto simp: send_json_def split: if_splits)

lemma send_json_None_outbound:
  "send_json tr ev s = (None, s1) \<Longrightarrow> outbound s1 = outbound s @ [ev]"
  by (auto dest!: send_json_None simp: outbound_def delivered_append)

lemma send_json_Some_outbound:
  "send_json tr ev s = (Some x, s1) \<Longrightarrow> outbound s1 = outbound s \<and> dead tr s1"
  by (auto dest!: send_json_Some accepts_Suc simp: outbound_def delivered_append dead_def)

lemma dead_send_json:
  "dead tr s \<Longrightarrow> \<exists>x s1. send_json tr ev s = (Some x, s1) \<and> outbound s1 = outbound s \<and> dead tr s1"
  by (auto simp: send_json_def dead_def outbound_def delivered_append dest: accepts_Suc)

lemma not_final_partial [simp]: "\<not> is_final (transcription_event t False)"
  by (simp add: is_final_def transcription_event_def)

lemma not_final_error [simp]: "\<not> is_final (error_event msg)"
  by (simp add: is_final_def is_transcription_def error_event_def)

lemma not_final_ready [simp]: "\<not> is_final (ready_event sr)"
  by (simp add: is_final_def is_transcription_def ready_event_def)

lemma not_transcription_done [simp]: "\<not> is_transcription done_event"
  by (simp add: is_transcription_def done_event_def)

lemma audio_branch_Continue:
  "audio_branch e m tr c kvs s = Continue c1 s1 \<Longrightarrow>
     \<exists>ps. outbound s1 = outbound s @ ps \<and> (\<forall>ev\<in>set ps. \<not> is_final ev)"
  by (auto simp: audio_branch_def Let_def outbound_record_action
           split: sum.splits option.splits prod.splits if_splits
           dest: send_json_None_outbound)

lemma audio_branch_Break: "audio_branch e m tr c kvs s \<noteq> Break s1"
  by (auto simp: audio_branch_def Let_def
           split: sum.splits option.splits prod.splits if_splits)

lemma audio_branch_Raise:
  "audio_branch e m tr c kvs s = Raise x c1 s1 \<Longrightarrow> outbound s1 = outbound s"
  by (auto simp: audio_branch_def Let_def outbound_record_action
           split: sum.splits option.splits prod.splits if_splits
           dest: send_json_Some_outbound)

lemma end_branch_Continue: "end_branch m tr c s \<noteq> Continue c1 s1"
  by (auto simp: end_branch_def split: option.splits prod.splits if_splits)

lemma end_branch_Break:
  "end_branch m tr c s = Break s1 \<Longrightarrow> \<exists>fs. outbound s1 = outbound s @ fs \<and> closing fs"
  by (auto simp: end_branch_def closing_def
           split: option.splits prod.splits if_splits
           dest!: send_json_None_outbound)

lemma end_branch_Raise:
  "end_branch m tr c s = Raise x c1 s1 \<Longrightarrow>
     dead tr s1 \<and> (\<exists>fs. outbound s1 = outbound s @ fs \<and> closing fs)"
  by (auto simp: end_branch_def closing_def
           split: option.splits prod.splits if_splits
           dest!: send_json_None_outbound send_json_Some_outbound)

lemma process_Continue:
  "process e m tr c r s = Continue c1 s1 \<Longrightarrow>
     \<exists>ps. outbound s1 = outbound s @ ps \<and> (\<forall>ev\<in>set ps. \<not> is_final ev)"
  by (auto simp: process_def end_branch_Continue
           split: recv.splits sum.splits json.splits if_splits
           dest: audio_branch_Continue)

lemma process_Break:
  "process e m tr c r s = Break s1 \<Longrightarrow> \<exists>fs. outbound s1 = outbound s @ fs \<and> closing fs"
  by (auto simp: process_def audio_branch_Break
           split: recv.splits sum.splits json.splits if_splits
           dest: end_branch_Break)

lemma process_Raise:
  "process e m tr c r s = Raise x c1 s1 \<Longrightarrow>
     outbound s1 = outbound s \<or>
     dead tr s1 \<and> (\<exists>fs. outbound s1 = outbound s @ fs \<and> closing fs)"
  by (auto simp: process_def
           split: recv.splits sum.splits json.splits if_splits
           dest: end_branch_Raise audio_branch_Raise)

lemma iteration_Next:
  assumes "iteration e m tr c r s = Next c1 s1"
  shows "\<exists>ps. outbound s1 = outbound s @ ps \<and> (\<forall>ev\<in>set ps. \<not> is_final ev)"
proof (cases "process e m tr c r s")
  case (Continue c2 s2)
  with assms have "c2 = c1" "s2 = s1" by (simp_all add: iteration_def)
  with Continue show ?thesis by (auto dest: process_Continue)
next
  case (Break s2)
  with assms show ?thesis by (simp add: iteration_def)
next
  case (Raise x c2 s2)
  show ?thesis
  proof (cases x)
    case (WebSocketDisconnect why)
    with Raise assms show ?thesis by (simp add: iteration_def)
  next
    case (Exception err)
    with Raise assms have sent: "send_json tr (error_event err) s2 = (None, s1)"
      by (auto simp: iteration_def split: prod.splits option.splits)
    then have "\<not> dead tr s2" by (auto simp: dead_def dest: send_json_None)
    with Raise have "outbound s2 = outbound s" by (auto dest: process_Raise)
    with sent have "outbound s1 = outbound s @ [error_event err]"
      by (auto dest: send_json_None_outbound)
    then show ?thesis by simp
  qed
qed

lemma iteration_Stop:
  "iteration e m tr c r s = Stop s1 \<Longrightarrow> \<exists>fs. outbound s1 = outbound s @ fs \<and> closing fs"
  by (auto simp: iteration_def closing_def split: flow.splits exn.splits prod.splits option.splits
           dest!: process_Break process_Raise)

lemma iteration_Escape:
  "iteration e m tr c r s = Escape x s1 \<Longrightarrow>
     dead tr s1 \<and> (\<exists>fs. outbound s1 = outbound s @ fs \<and> closing fs)"
  by (auto simp: iteration_def closing_def split: flow.splits exn.splits prod.splits option.splits
           dest!: process_Raise send_json_Some_outbound)


lemma loop_append:
  "loop e m tr c s (xs @ ys) =
     (case loop e m tr c s xs of
        Awaiting c1 s1 \<Rightarrow> loop e m tr c1 s1 ys
      | Broke s1 \<Rightarrow> Broke s1
      | Escaped x s1 \<Rightarrow> Escaped x s1)"
  by (induction xs arbitrary: c s) (simp_all split: iter.splits)

lemma iteration_Next_quiet:
  "iteration e m tr c r s = Next c1 s1 \<Longrightarrow> \<forall>ev\<in>set (outbound s). \<not> is_final ev \<Longrightarrow>
     \<forall>ev\<in>set (outbound s1). \<not> is_final ev"
  by (auto dest!: iteration_Next)

lemma loop_Awaiting:
  "loop e m tr c s rs = Awaiting c1 s1 \<Longrightarrow> \<forall>ev\<in>set (outbound s). \<not> is_final ev \<Longrightarrow>
     \<forall>ev\<in>set (outbound s1). \<not> is_final ev"
proof (induction rs arbitrary: c s)
  case Nil
  then show ?case by simp
next
  case (Cons r rs)
  show ?case
  proof (cases "iteration e m tr c r s")
    case (Next c2 s2)
    with Cons.prems have "loop e m tr c2 s2 rs = Awaiting c1 s1" by simp
    moreover from Next Cons.prems(2) have "\<forall>ev\<in>set (outbound s2). \<not> is_final ev"
      by (rule iteration_Next_quiet)
    ultimately show ?thesis by (rule Cons.IH)
  next
    case (Stop s2)
    with Cons.prems show ?thesis by simp
  next
    case (Escape x s2)
    with Cons.prems show ?thesis by simp
  qed
qed

lemma loop_Broke:
  "loop e m tr c s rs = Broke s1 \<Longrightarrow> \<forall>ev\<in>set (outbound s). \<not> is_final ev \<Longrightarrow>
     shaped (outbound s1)"
proof (induction rs arbitrary: c s)
  case Nil
  then show ?case by simp
next
  case (Cons r rs)
  show ?case
  proof (cases "iteration e m tr c r s")
    case (Next c2 s2)
    with Cons.prems have "loop e m tr c2 s2 rs = Broke s1" by simp
    moreover from Next Cons.prems(2) have "\<forall>ev\<in>set (outbound s2). \<not> is_final ev"
      by (rule iteration_Next_quiet)
    ultimately show ?thesis by (rule Cons.IH)
  next
    case (Stop s2)
    with Cons.prems show ?thesis
      by (auto simp: shaped_def dest!: iteration_Stop)
  next
    case (Escape x s2)
    with Cons.prems show ?thesis by simp
  qed
qed

lemma loop_Escaped:
  "loop e m tr c s rs = Escaped x s1 \<Longrightarrow> \<forall>ev\<in>set (outbound s). \<not> is_final ev \<Longrightarrow>
     dead tr s1 \<and> shaped (outbound s1)"
proof (induction rs arbitrary: c s)
  case Nil
  then show ?case by simp
next
  case (Cons r rs)
  show ?case
  proof (cases "iteration e m tr c r s")
    case (Next c2 s2)
    with Cons.prems have "loop e m tr c2 s2 rs = Escaped x s1" by simp
    moreover from Next Cons.prems(2) have "\<forall>ev\<in>set (outbound s2). \<not> is_final ev"
      by (rule iteration_Next_quiet)
    ultimately show ?thesis by (rule Cons.IH)
  next
    case (Stop s2)
    with Cons.prems show ?thesis by simp
  next
    case (Escape y s2)
    with Cons.prems show ?thesis
      by (auto simp: shaped_def dest!: iteration_Escape)
  qed
qed

section \<open>What the loop appends to the log\<close>

lemma extends_refl [simp]: "extends s s"
  by (simp add: extends_def)

lemma extends_trans: "extends s s1 \<Longrightarrow> extends s1 s2 \<Longrightarrow> extends s s2"
  by (auto simp: extends_def)

lemma extends_add_audio [simp]: "extends s (record_action (Add_Audio a) s)"
  by (simp add: extends_def record_action_def)

lemma extends_send_json: "extends s (snd (send_json tr ev s))"
  by (simp add: extends_def send_json_def)

lemma extends_send_json': "send_json tr ev s = (r, s1) \<Longrightarrow> extends s s1"
  using extends_send_json [of s tr ev] by simp

lemma audio_branch_extends: "extends s (flow_st (audio_branch e m tr c kvs s))"
  by (auto simp: audio_branch_def Let_def
           split: sum.splits option.splits prod.splits
           intro: extends_trans [OF extends_add_audio] extends_send_json')

lemma end_branch_extends: "extends s (flow_st (end_branch m tr c s))"
  by (auto simp: end_branch_def
           split: option.splits prod.splits if_splits
           intro: extends_send_json' extends_trans [OF extends_send_json' extends_send_json'])

lemma process_extends: "extends s (flow_st (process e m tr c r s))"
  by (auto simp: process_def audio_branch_extends end_branch_extends
           split: recv.splits sum.splits json.splits)

lemma iteration_extends: "extends s (iter_st (iteration e m tr c r s))"
proof (cases "process e m tr c r s")
  case (Continue c1 s1)
  with process_extends [of s e m tr c r] show ?thesis by (simp add: iteration_def)
next
  case (Break s1)
  with process_extends [of s e m tr c r] show ?thesis by (simp add: iteration_def)
next
  case (Raise x c1 s1)
  with process_extends [of s e m tr c r] have "extends s s1" by simp
  with Raise show ?thesis
    by (auto simp: iteration_def split: exn.splits prod.splits option.splits
             intro: extends_trans extends_send_json')
qed

lemma loop_extends: "extends s (exit_st (loop e m tr c s rs))"
proof (induction rs arbitrary: c s)
  case Nil
  show ?case by simp
next
  case (Cons r rs)
  show ?case
  proof (cases "iteration e m tr c r s")
    case (Next c1 s1)
    with iteration_extends [of s e m tr c r] have "extends s s1" by simp
    with Cons [of s1 c1] Next show ?thesis by (auto intro: extends_trans)
  next
    case (Stop s1)
    with iteration_extends [of s e m tr c r] show ?thesis by simp
  next
    case (Escape x s1)
    with iteration_extends [of s e m tr c r] show ?thesis by simp
  qed
qed

lemma extends_count:
  "extends s s1 \<Longrightarrow> \<not> loop_action a \<Longrightarrow> count_action a s1 = count_action a s"
  by (auto simp: extends_def count_action_def list_all_iff filter_empty_conv)

lemma extends_outbound: "extends s s1 \<Longrightarrow> \<exists>evs. outbound s1 = outbound s @ evs"
  by (auto simp: extends_def outbound_def delivered_append)

section \<open>Resuming a waiting session\<close>

lemma outbound_finally [simp]: "outbound (finally_clause tr b s) = outbound s"
  by (simp add: finally_clause_def ws_close_def outbound_record_action Let_def)

lemma count_finally:
  "count_action Exit_Called (finally_clause tr b s) =
     count_action Exit_Called s + (if b then 1 else 0)"
  by (simp add: finally_clause_def ws_close_def count_action_def record_action_def Let_def)

lemma session_Waiting:
  assumes "realtime_transcription e tr pre = (Waiting c, s)"
  shows "\<exists>m. stt_model e = Some m \<and>
           (\<forall>rest. realtime_transcription e tr (pre @ rest) =
                     finish tr True (loop e m tr c s rest))"
proof (cases "stt_model e")
  case None
  with assms show ?thesis
    by (auto simp: realtime_transcription_def split: prod.splits option.splits)
next
  case (Some m)
  from assms Some obtain b ex where tb: "try_block e m tr pre init = (b, ex)"
    and fin: "finish tr b ex = (Waiting c, s)"
    by (auto simp: realtime_transcription_def split: prod.splits)
  from fin have ex: "ex = Awaiting c s"
    by (auto simp: finish_def split: loop_exit.splits prod.splits option.splits)
  from tb ex obtain t c0 s3 where
    ts: "transcribe_stream m context_size False = Inr t" and
    en: "enter m t = Inr c0" and
    rd: "send_json tr (ready_event (sample_rate m))
           (record_action Entered (record_action Stream_Opened init)) = (None, s3)" and
    lp: "loop e m tr c0 s3 pre = Awaiting c s" and b: "b = True"
    by (auto simp: try_block_def Let_def split: sum.splits prod.splits option.splits)
  have "\<And>rest. realtime_transcription e tr (pre @ rest) =
                  finish tr True (loop e m tr c s rest)"
    using Some ts en rd lp
    by (simp add: realtime_transcription_def try_block_def Let_def loop_append)
  with Some show ?thesis by simp
qed

section \<open>The order of the delivered events\<close>

lemma is_final_final [simp]: "is_final (transcription_event t True)"
  by (simp add: is_final_def is_transcription_def transcription_event_def)

lemma not_final_done [simp]: "\<not> is_final done_event"
  by (simp add: is_final_def)

lemma quiet_nth: "\<forall>ev\<in>set pre. \<not> is_final ev \<Longrightarrow> i < length pre \<Longrightarrow> \<not> is_final (pre ! i)"
  by simp

lemma shaped_finals: 
  assumes "shaped evs" 
  shows "length (filter is_final evs) \<le> 1"
proof -
  from assms obtain pre fs where evs: "evs = pre @ fs" and
    q: "\<forall>ev\<in>set pre. \<not> is_final ev" and cl: "closing fs"
    by (auto simp: shaped_def)
  from q have "filter is_final pre = []" by (simp add: filter_empty_conv)
  moreover from cl have "length (filter is_final fs) \<le> 1"
    by (auto simp: closing_def)
  ultimately show ?thesis using evs by simp
qed

lemma shaped_after:
  assumes "shaped evs" "i < j" "j < length evs" "is_final (evs ! i)"
  shows "evs ! j = done_event"
proof -
  from assms(1) obtain pre fs where evs: "evs = pre @ fs" and
    q: "\<forall>ev\<in>set pre. \<not> is_final ev" and cl: "closing fs"
    by (auto simp: shaped_def)
  have "\<not> i < length pre"
  proof
    assume "i < length pre"
    with q assms(4) evs show False by (simp add: nth_append)
  qed
  then have i: "length pre \<le> i" by simp
  with assms(2,3) evs have il: "i - length pre < length fs" and jl: "j - length pre < length fs"
    and ij: "i - length pre < j - length pre"
    by auto
  from i assms(4) evs have fi: "is_final (fs ! (i - length pre))" by (simp add: nth_append)
  from i assms(2) evs have ej: "evs ! j = fs ! (j - length pre)" by (simp add: nth_append)
  from cl il jl ij fi have "fs ! (j - length pre) = done_event"
    by (auto simp: closing_def less_Suc_eq nth_Cons')
  with ej show ?thesis by simp
qed

lemma quiet_shaped: "\<forall>ev\<in>set evs. \<not> is_final ev \<Longrightarrow> shaped evs"
  by (auto simp: shaped_def closing_def)

lemma outbound_init [simp]: "outbound init = []"
  by (simp add: outbound_def init_def)

lemma try_block_shape:
  assumes "try_block e m tr frames init = (b, ex)"
  shows "case ex of
           Awaiting c s \<Rightarrow> \<forall>ev\<in>set (outbound s). \<not> is_final ev
         | Broke s \<Rightarrow> shaped (outbound s)
         | Escaped x s \<Rightarrow> shaped (outbound s) \<and> (dead tr s \<or> (\<forall>ev\<in>set (outbound s). \<not> is_final ev))"
proof (cases "transcribe_stream m context_size False")
  case (Inl err)
  with assms show ?thesis by (auto simp: try_block_def quiet_shaped)
next
  case (Inr t)
  note ts = this
  show ?thesis
  proof (cases "enter m t")
    case (Inl err)
    with ts assms show ?thesis
      by (auto simp: try_block_def Let_def quiet_shaped outbound_record_action)
  next
    case (Inr c0)
    let ?s2 = "record_action Entered (record_action Stream_Opened init)"
    obtain r s3 where sj: "send_json tr (ready_event (sample_rate m)) ?s2 = (r, s3)"
      by (cases "send_json tr (ready_event (sample_rate m)) ?s2")
    show ?thesis
    proof (cases r)
      case (Some x)
      with sj have "outbound s3 = []" 
        by (auto dest!: send_json_Some_outbound simp: outbound_record_action)
      with Some sj ts Inr assms show ?thesis
        by (auto simp: try_block_def Let_def quiet_shaped)
    next
      case None
      with sj have q: "\<forall>ev\<in>set (outbound s3). \<not> is_final ev"
        by (auto dest!: send_json_None_outbound simp: outbound_record_action)
      from None sj ts Inr assms have ex: "ex = loop e m tr c0 s3 frames"
        by (auto simp: try_block_def Let_def)
      show ?thesis
      proof (cases "loop e m tr c0 s3 frames")
        case (Awaiting c s)
        from loop_Awaiting [OF Awaiting q] ex Awaiting show ?thesis by simp
      next
        case (Broke s)
        from loop_Broke [OF Broke q] ex Broke show ?thesis by simp
      next
        case (Escaped x s)
        from loop_Escaped [OF Escaped q] ex Escaped show ?thesis by simp
      qed
    qed
  qed
qed

lemma finish_shaped:
  assumes "case ex of
           Awaiting c s \<Rightarrow> \<forall>ev\<in>set (outbound s). \<not> is_final ev
         | Broke s \<Rightarrow> shaped (outbound s)
         | Escaped x s \<Rightarrow> shaped (outbound s) \<and> (dead tr s \<or> (\<forall>ev\<in>set (outbound s). \<not> is_final ev))"
  shows "shaped (outbound (snd (finish tr b ex)))"
proof (cases ex)
  case (Awaiting c s)
  with assms show ?thesis by (simp add: finish_def quiet_shaped)
next
  case (Broke s)
  with assms show ?thesis by (simp add: finish_def)
next
  case (Escaped x s)
  obtain r s1 where sj: "send_json tr (error_event (str x)) s = (r, s1)"
    by (cases "send_json tr (error_event (str x)) s")
  show ?thesis
  proof (cases r)
    case (Some y)
    with sj have "outbound s1 = outbound s" by (auto dest: send_json_Some_outbound)
    with Some sj Escaped assms show ?thesis by (simp add: finish_def)
  next
    case None
    with sj have a: "accepts tr (attempts s)" and o: "outbound s1 = outbound s @ [error_event (str x)]"
      by (auto dest: send_json_None send_json_None_outbound)
    from a Escaped assms have "\<forall>ev\<in>set (outbound s). \<not> is_final ev"
      by (simp add: dead_def)
    with o have "shaped (outbound s1)" by (simp add: quiet_shaped)
    with None sj Escaped show ?thesis by (simp add: finish_def)
  qed
qed

lemma session_shaped: "shaped (outbound (snd (realtime_transcription e tr frames)))"
proof (cases "stt_model e")
  case None
  then show ?thesis
    by (auto simp: realtime_transcription_def send_json_def ws_close_def outbound_def
          record_action_def init_def quiet_shaped split: prod.splits option.splits)
next
  case (Some m)
  obtain b ex where tb: "try_block e m tr frames init = (b, ex)"
    by (cases "try_block e m tr frames init")
  from finish_shaped [OF try_block_shape [OF tb]] Some tb show ?thesis
    by (simp add: realtime_transcription_def)
qed

section \<open>Calls of \<open>__exit__\<close>\<close>

lemma count_init [simp]: "count_action a init = 0"
  by (simp add: count_action_def init_def)

lemma count_record_action:
  "count_action a (record_action b s) = count_action a s + (if b = a then 1 else 0)"
  by (simp add: count_action_def record_action_def)

lemma count_send_json:
  "send_json tr ev s = (r, s1) \<Longrightarrow> count_action Exit_Called s1 = count_action Exit_Called s"
  by (auto dest!: extends_send_json' extends_count [where a = Exit_Called])

lemma loop_releases:
  "count_action Exit_Called (exit_st (loop e m tr c s rs)) = count_action Exit_Called s"
  by (rule extends_count [OF loop_extends]) simp

lemma try_block_releases:
  assumes "transcribe_stream m context_size False = Inr t"
  shows "fst (try_block e m tr frames s) \<and>
         count_action Exit_Called (exit_st (snd (try_block e m tr frames s))) =
           count_action Exit_Called s"
proof (cases "enter m t")
  case (Inl err)
  with assms show ?thesis by (simp add: try_block_def Let_def count_record_action)
next
  case (Inr c0)
  let ?s2 = "record_action Entered (record_action Stream_Opened s)"
  obtain r s3 where sj: "send_json tr (ready_event (sample_rate m)) ?s2 = (r, s3)"
    by (cases "send_json tr (ready_event (sample_rate m)) ?s2")
  from count_send_json [OF sj]
  have "count_action Exit_Called s3 = count_action Exit_Called s"
    by (simp add: count_record_action)
  with assms Inr sj show ?thesis
    by (cases r) (simp_all add: try_block_def Let_def loop_releases)
qed

lemma finish_releases:
  "count_action Exit_Called (snd (finish tr b ex)) =
     count_action Exit_Called (exit_st ex) +
       (if terminated (fst (finish tr b ex)) \<and> b then 1 else 0)"
  by (auto simp: finish_def count_finally
           split: loop_exit.splits prod.splits option.splits dest: count_send_json)

section \<open>Disconnect\<close>

text \<open>
  Claim C9. When the handler is waiting for a frame and \<open>receive_text\<close> raises
  \<open>WebSocketDisconnect\<close>, the handler returns, and all it still does is to call
  \<open>__exit__\<close> on the transcriber and \<open>close\<close> on the socket: nothing is sent, not even
  attempted, no audio reaches the engine, and the frames after the disconnect are not
  read.
\<close>

theorem disconnect_terminates:
  assumes "realtime_transcription e tr pre = (Waiting c, s)"
  shows "realtime_transcription e tr (pre @ Recv_Disconnect why # post) =
           (Returned, s\<lparr>log := log s @ [Exit_Called, Ws_Closed]\<rparr>)"
proof -
  from session_Waiting [OF assms] obtain m where
    "realtime_transcription e tr (pre @ Recv_Disconnect why # post) =
       finish tr True (loop e m tr c s (Recv_Disconnect why # post))"
    by blast
  then show ?thesis
    by (simp add: iteration_def process_def finish_def finally_clause_def ws_close_def
          record_action_def)
qed

theorem disconnect_terminates_witness:
  "realtime_transcription (test_env [''hello'']) reliable [audio_frame ''AACAPw==''] =
     (Waiting (''hello'', []),
      \<lparr>log = [Stream_Opened, Entered, Sent (ready_event 16000), Add_Audio [1065353216],
              Sent (transcription_event ''hello'' False)],
       attempts = 2\<rparr>) \<and>
   realtime_transcription (test_env [''hello'']) reliable
     ([audio_frame ''AACAPw==''] @ Recv_Disconnect [] # [audio_frame ''AACAPw=='', end_frame]) =
     (Returned,
      \<lparr>log = [Stream_Opened, Entered, Sent (ready_event 16000), Add_Audio [1065353216],
              Sent (transcription_event ''hello'' False), Exit_Called, Ws_Closed],
       attempts = 2\<rparr>)"
proof -
  have h: "realtime_transcription (test_env [''hello'']) reliable [audio_frame ''AACAPw==''] =
     (Waiting (''hello'', []),
      \<lparr>log = [Stream_Opened, Entered, Sent (ready_event 16000), Add_Audio [1065353216],
              Sent (transcription_event ''hello'' False)],
       attempts = 2\<rparr>)"
    by code_simp
  show ?thesis
    using h disconnect_terminates [OF h, of "[]" "[audio_frame ''AACAPw=='', end_frame]"]
    by simp
qed

text \<open>
  The same holds when the disconnect is raised by a \<open>send_json\<close> inside the inner
  \<open>try\<close>: after the call that raised, the handler only calls \<open>__exit__\<close> and \<open>close\<close>.
\<close>

lemma observed_disconnect_terminates:
  assumes "realtime_transcription e tr pre = (Waiting c, s)"
    and "stt_model e = Some m"
    and "process e m tr c r s = Raise (WebSocketDisconnect why) c1 s1"
  shows "realtime_transcription e tr (pre @ r # post) =
           (Returned, s1\<lparr>log := log s1 @ [Exit_Called, Ws_Closed]\<rparr>)"
proof -
  from session_Waiting [OF assms(1)] assms(2) have
    "realtime_transcription e tr (pre @ r # post) =
       finish tr True (loop e m tr c s (r # post))"
    by auto
  with assms(3) show ?thesis
    by (simp add: iteration_def finish_def finally_clause_def ws_close_def record_action_def)
qed

section \<open>Release of the engine\<close>

text \<open>
  Claim C3. Once \<open>transcribe_stream\<close> has returned a transcriber, \<open>__exit__\<close> is called
  exactly once when the handler ends, however it ends (it returns after \<open>end\<close> or after a
  disconnect, or an exception leaves it), and is not called while the handler is still
  waiting for a frame.
\<close>

theorem released_exactly_once:
  assumes "stt_model e = Some m" and "transcribe_stream m context_size False = Inr t"
  shows "count_action Exit_Called (snd (realtime_transcription e tr frames)) =
           (if terminated (fst (realtime_transcription e tr frames)) then 1 else 0)"
proof -
  obtain b ex where tb: "try_block e m tr frames init = (b, ex)"
    by (cases "try_block e m tr frames init")
  with try_block_releases [OF assms(2), of e tr frames init]
  have b: "b" and c: "count_action Exit_Called (exit_st ex) = 0" by simp_all
  from assms(1) tb have "realtime_transcription e tr frames = finish tr b ex"
    by (simp add: realtime_transcription_def)
  with finish_releases [of tr b ex] b c show ?thesis by simp
qed

theorem released_exactly_once_witness:
  "stt_model (test_env [''hello'']) = Some (scripted_engine [''hello'']) \<and>
   transcribe_stream (scripted_engine [''hello'']) context_size False = Inr ([], [''hello'']) \<and>
   terminated (fst (realtime_transcription (test_env [''hello'']) reliable
                      [audio_frame ''AACAPw=='', end_frame])) \<and>
   count_action Exit_Called
     (snd (realtime_transcription (test_env [''hello'']) reliable
             [audio_frame ''AACAPw=='', end_frame])) = 1"
proof -
  have m: "stt_model (test_env [''hello'']) = Some (scripted_engine [''hello''])"
    by (simp add: test_env_def)
  have t: "transcribe_stream (scripted_engine [''hello'']) context_size False =
             Inr ([], [''hello''])"
    by (simp add: scripted_engine_def)
  have f: "terminated (fst (realtime_transcription (test_env [''hello'']) reliable
                              [audio_frame ''AACAPw=='', end_frame]))"
    by code_simp
  show ?thesis
    using m t f
      released_exactly_once [OF m t, of reliable "[audio_frame ''AACAPw=='', end_frame]"]
    by simp
qed

section \<open>At most one final transcription, and nothing but \<open>done\<close> after it\<close>

text \<open>
  Claim C4. Whatever the frames, the engine and the transport are, the client receives at
  most one transcription event with \<open>final: true\<close>, and an event received after it is
  the \<open>done\<close> event: no transcription event, partial or final, follows the final one.
\<close>

theorem final_is_last:
  "length (filter is_final (emitted e tr frames)) \<le> 1 \<and>
   (\<forall>i j. i < j \<longrightarrow> j < length (emitted e tr frames) \<longrightarrow>
      is_final (emitted e tr frames ! i) \<longrightarrow>
      emitted e tr frames ! j = done_event \<and>
      \<not> is_transcription (emitted e tr frames ! j))"
  using shaped_finals [OF session_shaped [of e tr frames]]
    shaped_after [OF session_shaped [of e tr frames]]
  by (auto simp: emitted_def)

theorem final_is_last_witness:
  "emitted (test_env [''hello'']) reliable [audio_frame ''AACAPw=='', end_frame] =
     [ready_event 16000, transcription_event ''hello'' False,
      transcription_event ''hello'' True, done_event] \<and>
   (2::nat) < 3 \<and>
   3 < length (emitted (test_env [''hello'']) reliable [audio_frame ''AACAPw=='', end_frame]) \<and>
   is_final (emitted (test_env [''hello'']) reliable [audio_frame ''AACAPw=='', end_frame] ! 2) \<and>
   \<not> is_transcription
       (emitted (test_env [''hello'']) reliable [audio_frame ''AACAPw=='', end_frame] ! 3)"
proof -
  have ev: "emitted (test_env [''hello'']) reliable [audio_frame ''AACAPw=='', end_frame] =
     [ready_event 16000, transcription_event ''hello'' False,
      transcription_event ''hello'' True, done_event]"
    by code_simp
  have i: "is_final (emitted (test_env [''hello'']) reliable
                       [audio_frame ''AACAPw=='', end_frame] ! 2)"
    by (simp add: ev)
  have l: "3 < length (emitted (test_env [''hello'']) reliable
                         [audio_frame ''AACAPw=='', end_frame])"
    by (simp add: ev)
  have o: "(2::nat) < 3" by simp
  from final_is_last [of "test_env [''hello'']" reliable "[audio_frame ''AACAPw=='', end_frame]",
      THEN conjunct2, rule_format, OF o l i]
  have "\<not> is_transcription
            (emitted (test_env [''hello'']) reliable [audio_frame ''AACAPw=='', end_frame] ! 3)"
    by (rule conjunct2)
  with ev i l show ?thesis by simp
qed

section \<open>No model loaded\<close>

text \<open>
  Claim C8. When \<open>stt_model\<close> is \<open>None\<close> the handler sends the error event
  \<open>Model not loaded\<close>, closes the socket and returns: it does not wait for a frame, it
  opens and enters no streaming context, and it feeds no audio. When the connection is
  already lost the send raises and the exception leaves the handler at once.
\<close>

theorem unloaded_model:
  assumes "stt_model e = None"
  shows "realtime_transcription e tr frames =
           (if accepts tr 0
            then (case close_exn tr of None \<Rightarrow> Returned | Some x \<Rightarrow> Raised x,
                  \<lparr>log = [Sent [(''type'', JStr ''error''), (''message'', JStr ''Model not loaded'')], Ws_Closed], attempts = 1\<rparr>)
            else (Raised (send_exn tr 0),
                  \<lparr>log = [Send_Failed
                          [(''type'', JStr ''error''), (''message'', JStr ''Model not loaded'')]], attempts = 1\<rparr>))"
  using assms
  by (simp add: realtime_transcription_def send_json_def ws_close_def init_def
        record_action_def error_event_def split: option.splits)

theorem unloaded_model_witness:
  "stt_model unloaded_env = None \<and>
   realtime_transcription unloaded_env reliable [audio_frame ''AACAPw=='', end_frame] =
     (Returned,
      \<lparr>log = [Sent [(''type'', JStr ''error''), (''message'', JStr ''Model not loaded'')], Ws_Closed], attempts = 1\<rparr>)"
proof -
  have m: "stt_model unloaded_env = None" by (simp add: unloaded_env_def)
  show ?thesis
    using m unloaded_model [OF m, of reliable "[audio_frame ''AACAPw=='', end_frame]"]
    by (simp add: reliable_def accepts_def)
qed

lemma strip_Nil [simp]: "strip [] = []"
  by (simp add: strip_def)

lemma emitted_Waiting:
  "realtime_transcription e tr pre = (Waiting c, s) \<Longrightarrow> emitted e tr pre = outbound s"
  by (simp add: emitted_def)

lemma loop_skip:
  assumes "\<And>c s. iteration e m tr c r s = Next c s"
  shows "loop e m tr c s (pre @ r # rest) = loop e m tr c s (pre @ rest)"
  by (simp add: loop_append [of e m tr c s pre] assms split: loop_exit.splits)

lemma try_block_skip:
  assumes "\<And>c s. iteration e m tr c r s = Next c s"
  shows "try_block e m tr (pre @ r # rest) s = try_block e m tr (pre @ rest) s"
  unfolding try_block_def Let_def loop_skip [OF assms] ..

lemma ignored_iteration:
  assumes "map_of kvs ''type'' \<noteq> Some (JStr ''audio'')"
    and "map_of kvs ''type'' \<noteq> Some (JStr ''end'')"
  shows "iteration e m tr c (Recv_Json (JObj kvs)) s = Next c s"
  using assms by (simp add: iteration_def process_def)

section \<open>Frames of another type\<close>

text \<open>
  Claim C10, amended. A frame that decodes to a JSON object whose \<open>type\<close> is neither
  \<open>"audio"\<close> nor \<open>"end"\<close>, or is missing, changes nothing: the iteration sends nothing,
  raises nothing, feeds no audio and leaves the context and the log as they were, so the
  session goes on as if the frame had not been sent.
\<close>

theorem other_type_ignored:
  assumes "map_of kvs ''type'' \<noteq> Some (JStr ''audio'')"
    and "map_of kvs ''type'' \<noteq> Some (JStr ''end'')"
  shows "iteration e m tr c (Recv_Json (JObj kvs)) s = Next c s \<and>
         realtime_transcription e tr (pre @ Recv_Json (JObj kvs) # rest) =
           realtime_transcription e tr (pre @ rest)"
proof -
  have "realtime_transcription e tr (pre @ Recv_Json (JObj kvs) # rest) =
           realtime_transcription e tr (pre @ rest)"
  proof (cases "stt_model e")
    case None
    then show ?thesis by (simp add: realtime_transcription_def)
  next
    case (Some m')
    then show ?thesis
      by (simp add: realtime_transcription_def try_block_skip [OF ignored_iteration [OF assms]])
  qed
  with ignored_iteration [OF assms] show ?thesis by simp
qed

text \<open>A frame of type \<open>ping\<close> between an audio chunk and \<open>end\<close>.\<close>

theorem other_type_ignored_witness:
  "map_of [(''type'', JStr ''ping'')] ''type'' \<noteq> Some (JStr ''audio'') \<and>
   map_of [(''type'', JStr ''ping'')] ''type'' \<noteq> Some (JStr ''end'') \<and>
   realtime_transcription (test_env [''hello'']) reliable
     ([audio_frame ''AACAPw==''] @ Recv_Json (JObj [(''type'', JStr ''ping'')]) # [end_frame]) =
   realtime_transcription (test_env [''hello'']) reliable
     ([audio_frame ''AACAPw==''] @ [end_frame])"
proof -
  have a: "map_of [(''type'', JStr ''ping'')] ''type'' \<noteq> Some (JStr ''audio'')" by simp
  have b: "map_of [(''type'', JStr ''ping'')] ''type'' \<noteq> Some (JStr ''end'')" by simp
  show ?thesis
    using a b other_type_ignored [OF a b, of "test_env [''hello'']" _ reliable _ _
        "[audio_frame ''AACAPw=='']" "[end_frame]"]
    by simp
qed

text \<open>
  Claim C10 as stated fails for a frame that decodes to JSON that is no object: \<open>[]\<close> has
  no \<open>type\<close> field, \<open>data.get\<close> raises AttributeError, and the handler reports it to the
  client in an error event.
\<close>

theorem non_object_frame_counterexample:
  "emitted (test_env []) reliable [Recv_Json (JArr [])] =
     [ready_event 16000,
      error_event (quote ''list'' @ '' object has no attribute '' @ quote ''get'')]"
  by code_simp

section \<open>The frame \<open>end\<close>\<close>

text \<open>
  Claim C1, amended. When the handler is waiting for a frame, the transport still accepts
  two frames and \<open>end\<close> arrives, the handler returns after it has sent \<open>done\<close>; before
  \<open>done\<close> it sends a transcription event with \<open>final: true\<close> exactly when the engine
  has a result whose text is not empty, and that event carries the stripped text. With no
  result or an empty text, as on \<open>end\<close> with no audio before it, \<open>done\<close> is all it
  sends.
\<close>

theorem end_emits:
  assumes aw: "realtime_transcription e tr pre = (Waiting c, s)"
    and m: "stt_model e = Some m"
    and ty: "map_of kvs ''type'' = Some (JStr ''end'')"
    and up: "accepts tr (Suc (attempts s))"
  shows "fst (realtime_transcription e tr (pre @ Recv_Json (JObj kvs) # post)) = Returned \<and>
         emitted e tr (pre @ Recv_Json (JObj kvs) # post) =
           emitted e tr pre @
           (case result m c of
              None \<Rightarrow> []
            | Some t \<Rightarrow> if t \<noteq> []
                then [[(''type'', JStr ''transcription''), (''text'', JStr (strip t)), (''final'', JBool True)]]
                else []) @
           [[(''type'', JStr ''done'')]]"
proof -
  from session_Waiting [OF aw] m have
    r: "realtime_transcription e tr (pre @ Recv_Json (JObj kvs) # post) =
       finish tr True (loop e m tr c s (Recv_Json (JObj kvs) # post))"
    by auto
  from up have up0: "accepts tr (attempts s)" by (rule accepts_Suc)
  show ?thesis
    using up up0 ty
    by (simp add: r emitted_def aw iteration_def process_def end_branch_def send_json_def
          finish_def outbound_def delivered_append finally_clause_def ws_close_def
          record_action_def transcription_event_def done_event_def split: option.splits)
qed

text \<open>
  Claim C1 as stated fails: a session that is opened and sent \<open>end\<close> at once, on an
  engine whose text is empty, receives \<open>ready\<close> and \<open>done\<close> and no transcription event.
\<close>

theorem end_without_audio_counterexample:
  "emitted (test_env []) reliable [end_frame] =
     [[(''type'', JStr ''ready''), (''sample_rate'', JInt 16000),
       (''message'',
        JStr ''Ready to receive audio. Send audio chunks as base64-encoded WAV data.'')],
      [(''type'', JStr ''done'')]] \<and>
   [(''type'', JStr ''transcription''), (''text'', JStr []), (''final'', JBool True)]
     \<notin> set (emitted (test_env []) reliable [end_frame])"
  by code_simp

text \<open>
  An engine whose text is two blanks: the text is not empty, so \<open>end\<close> yields a final
  event, and its stripped text is empty.
\<close>

theorem end_emits_witness:
  "realtime_transcription (test_env [''  '']) reliable [audio_frame ''AACAPw==''] =
     (Waiting (''  '', []),
      \<lparr>log = [Stream_Opened, Entered, Sent (ready_event 16000), Add_Audio [1065353216]],
       attempts = 1\<rparr>) \<and>
   stt_model (test_env [''  '']) = Some (scripted_engine [''  '']) \<and>
   map_of [(''type'', JStr ''end'')] ''type'' = Some (JStr ''end'') \<and>
   accepts reliable (Suc 1) \<and>
   emitted (test_env [''  '']) reliable
     ([audio_frame ''AACAPw==''] @ Recv_Json (JObj [(''type'', JStr ''end'')]) # []) =
     [ready_event 16000,
      [(''type'', JStr ''transcription''), (''text'', JStr []), (''final'', JBool True)],
      [(''type'', JStr ''done'')]]"
proof -
  have aw: "realtime_transcription (test_env [''  '']) reliable [audio_frame ''AACAPw==''] =
     (Waiting (''  '', []),
      \<lparr>log = [Stream_Opened, Entered, Sent (ready_event 16000), Add_Audio [1065353216]],
       attempts = 1\<rparr>)"
    by code_simp
  have m: "stt_model (test_env [''  '']) = Some (scripted_engine [''  ''])"
    by (simp add: test_env_def)
  have ty: "map_of [(''type'', JStr ''end'')] ''type'' = Some (JStr ''end'')" by simp
  have up: "accepts reliable (Suc (attempts \<lparr>log = [Stream_Opened, Entered, Sent (ready_event 16000), Add_Audio [1065353216]],
       attempts = 1\<rparr>))"
    by (simp add: accepts_def reliable_def)
  have st: "strip ''  '' = []" by code_simp
  have ev: "emitted (test_env [''  '']) reliable [audio_frame ''AACAPw==''] = [ready_event 16000]"
    by code_simp
  show ?thesis
    using aw m ty up end_emits [OF aw m ty up, of "[]"]
    by (simp add: scripted_engine_def st ev)
qed

section \<open>Partial transcriptions\<close>

text \<open>
  Claim C2, amended. After a chunk that was decoded and fed to the engine without an
  exception, with a transport that accepts the next frame, the handler goes on waiting
  and has sent a partial transcription (\<open>final: false\<close>) exactly when the engine has a
  result whose stripped text is not empty; the event carries the stripped text. The text
  sent before plays no part.
\<close>

theorem partial_emitted:
  assumes aw: "realtime_transcription e tr pre = (Waiting c, s)"
    and m: "stt_model e = Some m"
    and ty: "map_of kvs ''type'' = Some (JStr ''audio'')"
    and pl: "map_of kvs ''data'' = Some payload"
    and de: "b64decode e payload = Inr audio_bytes"
    and fb: "frombuffer audio_bytes = Inr audio_np"
    and ad: "add_audio m c (mx_array audio_np) = (c1, None)"
    and up: "accepts tr (attempts s)"
  shows "fst (realtime_transcription e tr (pre @ [Recv_Json (JObj kvs)])) = Waiting c1 \<and>
         emitted e tr (pre @ [Recv_Json (JObj kvs)]) =
           emitted e tr pre @
           (case result m c1 of
              None \<Rightarrow> []
            | Some t \<Rightarrow> if strip t \<noteq> [] then [transcription_event (strip t) False] else [])"
proof -
  from session_Waiting [OF aw] m have
    r: "realtime_transcription e tr (pre @ [Recv_Json (JObj kvs)]) =
       finish tr True (loop e m tr c s [Recv_Json (JObj kvs)])"
    by auto
  have "strip [] = []" by (simp add: strip_def)
  then show ?thesis
    using ty pl de fb ad up
    by (auto simp: r emitted_def aw iteration_def process_def audio_branch_def dict_getitem_def
          Let_def send_json_def finish_def outbound_def delivered_append record_action_def
          split: option.splits)
qed

text \<open>The second chunk of the engine that repeats \<open>hello\<close>.\<close>

theorem partial_emitted_witness:
  "realtime_transcription (test_env [''hello'', ''hello'']) reliable [audio_frame ''AACAPw==''] =
     (Waiting (''hello'', [''hello'']),
      \<lparr>log = [Stream_Opened, Entered, Sent (ready_event 16000), Add_Audio [1065353216],
              Sent (transcription_event ''hello'' False)],
       attempts = 2\<rparr>) \<and>
   emitted (test_env [''hello'', ''hello'']) reliable
     ([audio_frame ''AACAPw==''] @
      [Recv_Json (JObj [(''type'', JStr ''audio''), (''data'', JStr ''AACAPw=='')])]) =
     [ready_event 16000, transcription_event ''hello'' False, transcription_event ''hello'' False]"
proof -
  let ?m = "scripted_engine [''hello'', ''hello'']"
  let ?e = "test_env [''hello'', ''hello'']"
  let ?s = "\<lparr>log = [Stream_Opened, Entered, Sent (ready_event 16000), Add_Audio [1065353216],
              Sent (transcription_event ''hello'' False)],
       attempts = 2\<rparr>"
  have aw: "realtime_transcription ?e reliable [audio_frame ''AACAPw==''] =
     (Waiting (''hello'', [''hello'']), ?s)"
    by code_simp
  have m: "stt_model ?e = Some ?m" by (simp add: test_env_def)
  have ty: "map_of [(''type'', JStr ''audio''), (''data'', JStr ''AACAPw=='')] ''type'' =
              Some (JStr ''audio'')" by simp
  have pl: "map_of [(''type'', JStr ''audio''), (''data'', JStr ''AACAPw=='')] ''data'' =
              Some (JStr ''AACAPw=='')" by simp
  have d: "b64decode ?e (JStr ''AACAPw=='') = Inr [0, 0, 128, 63]"
    by (simp add: test_env_def table_b64decode_def)
  have f: "frombuffer [0, 0, 128, 63] = Inr [1065353216]" by code_simp
  have g: "add_audio ?m (''hello'', [''hello'']) (mx_array [1065353216]) =
              ((''hello'', []), None)"
    by (simp add: scripted_engine_def)
  have up: "accepts reliable (attempts ?s)" by (simp add: accepts_def reliable_def)
  have ev: "emitted ?e reliable [audio_frame ''AACAPw==''] =
              [ready_event 16000, transcription_event ''hello'' False]"
    by code_simp
  have st: "strip ''hello'' = ''hello''" by code_simp
  from partial_emitted [OF aw m ty pl d f g up]
  show ?thesis using aw by (simp add: ev st scripted_engine_def)
qed

text \<open>
  Claim C2 as stated fails: an engine whose text is \<open>hello\<close> after the first and after
  the second chunk makes the handler send two consecutive partial events with the same
  text.
\<close>

theorem repeated_partial_counterexample:
  "emitted (test_env [''hello'', ''hello'']) reliable
     [audio_frame ''AACAPw=='', audio_frame ''AACAPw==''] =
     [ready_event 16000, transcription_event ''hello'' False, transcription_event ''hello'' False]"
  by code_simp

section \<open>A chunk that fails\<close>

text \<open>
  Claim C5. When the handler is waiting for a frame, the body of the loop raises an
  exception other than a disconnect for the next frame (the payload is missing or cannot
  be decoded, the buffer is ragged, the engine rejects the audio) and the transport
  accepts one more frame, then the handler sends an error event with the text of the
  exception and waits for the next frame with the context the failure left: the frames
  that follow are processed from there.
\<close>

theorem chunk_error_continues:
  assumes aw: "realtime_transcription e tr pre = (Waiting c, s)"
    and m: "stt_model e = Some m"
    and fail: "process e m tr c r s = Raise (Exception err) c1 s1"
    and up: "accepts tr (attempts s1)"
  shows "realtime_transcription e tr (pre @ [r]) =
           (Waiting c1, \<lparr>log = log s1 @ [Sent [(''type'', JStr ''error''), (''message'', JStr err)]], attempts = Suc (attempts s1)\<rparr>) \<and>
         (\<forall>rest. realtime_transcription e tr (pre @ r # rest) =
            finish tr True
              (loop e m tr c1
                 \<lparr>log = log s1 @ [Sent [(''type'', JStr ''error''), (''message'', JStr err)]], attempts = Suc (attempts s1)\<rparr> rest))"
proof -
  from session_Waiting [OF aw] m have
    r: "\<And>rest. realtime_transcription e tr (pre @ rest) = finish tr True (loop e m tr c s rest)"
    by auto
  have it: "iteration e m tr c r s =
          Next c1 \<lparr>log = log s1 @ [Sent [(''type'', JStr ''error''), (''message'', JStr err)]], attempts = Suc (attempts s1)\<rparr>"
    using fail up by (simp add: iteration_def send_json_def error_event_def)
  show ?thesis
    by (simp add: r it finish_def)
qed

lemma missing_data_raises:
  assumes "map_of kvs ''type'' = Some (JStr ''audio'')" and "map_of kvs ''data'' = None"
  shows "process e m tr c (Recv_Json (JObj kvs)) s = Raise (Exception (quote ''data'')) c s"
  using assms by (simp add: process_def audio_branch_def dict_getitem_def)

lemma undecodable_payload_raises:
  assumes "map_of kvs ''type'' = Some (JStr ''audio'')" and "map_of kvs ''data'' = Some payload"
    and "b64decode e payload = Inl err"
  shows "process e m tr c (Recv_Json (JObj kvs)) s = Raise (Exception err) c s"
  using assms by (simp add: process_def audio_branch_def dict_getitem_def)

lemma ragged_buffer_raises:
  assumes "map_of kvs ''type'' = Some (JStr ''audio'')" and "map_of kvs ''data'' = Some payload"
    and "b64decode e payload = Inr audio_bytes" and "length audio_bytes mod 4 \<noteq> 0"
  shows "process e m tr c (Recv_Json (JObj kvs)) s =
           Raise (Exception ''buffer size must be a multiple of element size'') c s"
  using assms by (simp add: process_def audio_branch_def dict_getitem_def frombuffer_def)

lemma rejected_audio_raises:
  assumes "map_of kvs ''type'' = Some (JStr ''audio'')" and "map_of kvs ''data'' = Some payload"
    and "b64decode e payload = Inr audio_bytes" and "frombuffer audio_bytes = Inr audio_np"
    and "add_audio m c (mx_array audio_np) = (c1, Some err)"
  shows "process e m tr c (Recv_Json (JObj kvs)) s =
           Raise (Exception err) c1 (record_action (Add_Audio (mx_array audio_np)) s)"
  using assms by (simp add: process_def audio_branch_def dict_getitem_def Let_def)

text \<open>A chunk with incorrect padding followed by a valid chunk.\<close>

theorem chunk_error_continues_witness:
  "realtime_transcription (test_env [''hello'']) reliable [] =
     (Waiting ([], [''hello'']),
      \<lparr>log = [Stream_Opened, Entered, Sent (ready_event 16000)], attempts = 1\<rparr>) \<and>
   stt_model (test_env [''hello'']) = Some (scripted_engine [''hello'']) \<and>
   process (test_env [''hello'']) (scripted_engine [''hello'']) reliable ([], [''hello''])
     (audio_frame ''AA'')
     \<lparr>log = [Stream_Opened, Entered, Sent (ready_event 16000)], attempts = 1\<rparr> =
     Raise (Exception ''Incorrect padding'') ([], [''hello''])
       \<lparr>log = [Stream_Opened, Entered, Sent (ready_event 16000)], attempts = 1\<rparr> \<and>
   accepts reliable 1 \<and>
   realtime_transcription (test_env [''hello'']) reliable ([] @ [audio_frame ''AA'']) =
     (Waiting ([], [''hello'']),
      \<lparr>log = [Stream_Opened, Entered, Sent (ready_event 16000),
              Sent [(''type'', JStr ''error''), (''message'', JStr ''Incorrect padding'')]],
       attempts = 2\<rparr>) \<and>
   realtime_transcription (test_env [''hello'']) reliable
       ([] @ audio_frame ''AA'' # [audio_frame ''AACAPw=='']) =
     (Waiting (''hello'', []),
      \<lparr>log = [Stream_Opened, Entered, Sent (ready_event 16000),
              Sent [(''type'', JStr ''error''), (''message'', JStr ''Incorrect padding'')], Add_Audio [1065353216],
              Sent (transcription_event ''hello'' False)],
       attempts = 3\<rparr>)"
proof -
  let ?s = "\<lparr>log = [Stream_Opened, Entered, Sent (ready_event 16000)], attempts = 1\<rparr>"
  have aw: "realtime_transcription (test_env [''hello'']) reliable [] =
     (Waiting ([], [''hello'']), ?s)"
    by code_simp
  have m: "stt_model (test_env [''hello'']) = Some (scripted_engine [''hello''])"
    by (simp add: test_env_def)
  have fail: "process (test_env [''hello'']) (scripted_engine [''hello'']) reliable
      ([], [''hello'']) (audio_frame ''AA'') ?s =
     Raise (Exception ''Incorrect padding'') ([], [''hello'']) ?s"
    by code_simp
  have up: "accepts reliable (attempts ?s)"
    by (simp add: accepts_def reliable_def)
  have nx: "finish reliable True
              (loop (test_env [''hello'']) (scripted_engine [''hello'']) reliable ([], [''hello''])
                 \<lparr>log = log ?s @ [Sent [(''type'', JStr ''error''), (''message'', JStr ''Incorrect padding'')]],
                  attempts = Suc (attempts ?s)\<rparr>
                 [audio_frame ''AACAPw=='']) =
     (Waiting (''hello'', []),
      \<lparr>log = [Stream_Opened, Entered, Sent (ready_event 16000),
              Sent [(''type'', JStr ''error''), (''message'', JStr ''Incorrect padding'')], Add_Audio [1065353216],
              Sent (transcription_event ''hello'' False)],
       attempts = 3\<rparr>)"
    by code_simp
  from chunk_error_continues [OF aw m fail up]
  have a: "realtime_transcription (test_env [''hello'']) reliable ([] @ [audio_frame ''AA'']) =
     (Waiting ([], [''hello'']),
      \<lparr>log = log ?s @ [Sent [(''type'', JStr ''error''), (''message'', JStr ''Incorrect padding'')]], attempts = Suc (attempts ?s)\<rparr>)"
    and b: "realtime_transcription (test_env [''hello'']) reliable
       ([] @ audio_frame ''AA'' # [audio_frame ''AACAPw=='']) =
       finish reliable True
              (loop (test_env [''hello'']) (scripted_engine [''hello'']) reliable ([], [''hello''])
                 \<lparr>log = log ?s @ [Sent [(''type'', JStr ''error''), (''message'', JStr ''Incorrect padding'')]],
                  attempts = Suc (attempts ?s)\<rparr>
                 [audio_frame ''AACAPw==''])"
    by blast+
  show ?thesis
    using aw m fail up a b nx by simp
qed

section \<open>Three chunks\<close>

text \<open>
  Claim C6. In a session whose three audio chunks are decoded and fed to the engine
  without an exception, and after which the engine's text is empty, then \<open>hello\<close>, then
  \<open>hello world\<close>, the client receives \<open>ready\<close> and exactly two transcription events,
  both partial, with the texts \<open>hello\<close> and \<open>hello world\<close>: nothing is sent for the
  empty text.
\<close>

theorem three_chunks:
  assumes m: "stt_model e = Some m"
    and ts: "transcribe_stream m context_size False = Inr t"
    and en: "enter m t = Inr c0"
    and d1: "b64decode e p1 = Inr b1" and f1: "frombuffer b1 = Inr a1"
    and g1: "add_audio m c0 (mx_array a1) = (c1, None)" and r1: "result m c1 = Some []"
    and d2: "b64decode e p2 = Inr b2" and f2: "frombuffer b2 = Inr a2"
    and g2: "add_audio m c1 (mx_array a2) = (c2, None)" and r2: "result m c2 = Some ''hello''"
    and d3: "b64decode e p3 = Inr b3" and f3: "frombuffer b3 = Inr a3"
    and g3: "add_audio m c2 (mx_array a3) = (c3, None)"
    and r3: "result m c3 = Some ''hello world''"
    and up: "accepts tr 2"
  shows "emitted e tr
           [Recv_Json (JObj [(''type'', JStr ''audio''), (''data'', p1)]),
            Recv_Json (JObj [(''type'', JStr ''audio''), (''data'', p2)]),
            Recv_Json (JObj [(''type'', JStr ''audio''), (''data'', p3)])] =
         [ready_event (sample_rate m), [(''type'', JStr ''transcription''), (''text'', JStr ''hello''), (''final'', JBool False)],
          [(''type'', JStr ''transcription''), (''text'', JStr ''hello world''), (''final'', JBool False)]] \<and>
         filter is_transcription
           (emitted e tr
              [Recv_Json (JObj [(''type'', JStr ''audio''), (''data'', p1)]),
               Recv_Json (JObj [(''type'', JStr ''audio''), (''data'', p2)]),
               Recv_Json (JObj [(''type'', JStr ''audio''), (''data'', p3)])]) =
         [[(''type'', JStr ''transcription''), (''text'', JStr ''hello''), (''final'', JBool False)], [(''type'', JStr ''transcription''), (''text'', JStr ''hello world''), (''final'', JBool False)]]"
proof -
  have s1: "strip ''hello'' = ''hello''" by code_simp
  have s2: "strip ''hello world'' = ''hello world''" by code_simp
  from up have u2: "accepts tr (Suc (Suc 0))" by (simp add: numeral_2_eq_2)
  then have u1: "accepts tr (Suc 0)" by (rule accepts_Suc)
  then have u0: "accepts tr 0" by (rule accepts_Suc)
  have ev: "emitted e tr
           [Recv_Json (JObj [(''type'', JStr ''audio''), (''data'', p1)]),
            Recv_Json (JObj [(''type'', JStr ''audio''), (''data'', p2)]),
            Recv_Json (JObj [(''type'', JStr ''audio''), (''data'', p3)])] =
         [ready_event (sample_rate m), [(''type'', JStr ''transcription''), (''text'', JStr ''hello''), (''final'', JBool False)],
          [(''type'', JStr ''transcription''), (''text'', JStr ''hello world''), (''final'', JBool False)]]"
    using u0 u1 u2
    by (simp add: emitted_def realtime_transcription_def m try_block_def ts en Let_def
          iteration_def process_def audio_branch_def dict_getitem_def
          d1 f1 g1 r1 d2 f2 g2 r2 d3 f3 g3 r3 s1 s2
          send_json_def record_action_def init_def finish_def outbound_def
          transcription_event_def)
  show ?thesis
    by (simp add: ev is_transcription_def ready_event_def)
qed

lemma is_partial_partial: "is_partial (transcription_event t False)"
  by (simp add: is_partial_def is_transcription_def transcription_event_def)

lemma not_partial_ready: "\<not> is_partial (ready_event sr)"
  by (simp add: is_partial_def is_transcription_def ready_event_def)

text \<open>The scenario on the scripted engine.\<close>

theorem three_chunks_witness:
  "stt_model (test_env [[], ''hello'', ''hello world'']) =
     Some (scripted_engine [[], ''hello'', ''hello world'']) \<and>
   accepts reliable 2 \<and>
   emitted (test_env [[], ''hello'', ''hello world'']) reliable
     [Recv_Json (JObj [(''type'', JStr ''audio''), (''data'', JStr ''AACAPw=='')]),
      Recv_Json (JObj [(''type'', JStr ''audio''), (''data'', JStr ''AACAPw=='')]),
      Recv_Json (JObj [(''type'', JStr ''audio''), (''data'', JStr ''AACAPw=='')])] =
     [ready_event 16000, [(''type'', JStr ''transcription''), (''text'', JStr ''hello''), (''final'', JBool False)],
      [(''type'', JStr ''transcription''), (''text'', JStr ''hello world''), (''final'', JBool False)]] \<and>
   length (filter is_partial
     (emitted (test_env [[], ''hello'', ''hello world'']) reliable
        [Recv_Json (JObj [(''type'', JStr ''audio''), (''data'', JStr ''AACAPw=='')]),
         Recv_Json (JObj [(''type'', JStr ''audio''), (''data'', JStr ''AACAPw=='')]),
         Recv_Json (JObj [(''type'', JStr ''audio''), (''data'', JStr ''AACAPw=='')])])) = 2"
proof -
  let ?m = "scripted_engine [[], ''hello'', ''hello world'']"
  let ?e = "test_env [[], ''hello'', ''hello world'']"
  have m: "stt_model ?e = Some ?m" by (simp add: test_env_def)
  have ts: "transcribe_stream ?m context_size False = Inr ([], [[], ''hello'', ''hello world''])"
    by (simp add: scripted_engine_def)
  have en: "enter ?m ([], [[], ''hello'', ''hello world'']) = Inr ([], [[], ''hello'', ''hello world''])"
    by (simp add: scripted_engine_def)
  have d: "b64decode ?e (JStr ''AACAPw=='') = Inr [0, 0, 128, 63]"
    by (simp add: test_env_def table_b64decode_def)
  have f: "frombuffer [0, 0, 128, 63] = Inr [1065353216]" by code_simp
  have g1: "add_audio ?m ([], [[], ''hello'', ''hello world'']) (mx_array [1065353216]) =
              (([], [''hello'', ''hello world'']), None)"
    by (simp add: scripted_engine_def)
  have r1: "result ?m ([], [''hello'', ''hello world'']) = Some []"
    by (simp add: scripted_engine_def)
  have g2: "add_audio ?m ([], [''hello'', ''hello world'']) (mx_array [1065353216]) =
              ((''hello'', [''hello world'']), None)"
    by (simp add: scripted_engine_def)
  have r2: "result ?m (''hello'', [''hello world'']) = Some ''hello''"
    by (simp add: scripted_engine_def)
  have g3: "add_audio ?m (''hello'', [''hello world'']) (mx_array [1065353216]) =
              ((''hello world'', []), None)"
    by (simp add: scripted_engine_def)
  have r3: "result ?m (''hello world'', []) = Some ''hello world''"
    by (simp add: scripted_engine_def)
  have up: "accepts reliable 2" by (simp add: accepts_def reliable_def)
  have sr: "sample_rate ?m = 16000" by (simp add: scripted_engine_def)
  from three_chunks [OF m ts en d f g1 r1 d f g2 r2 d f g3 r3 up]
  have ev: "emitted ?e reliable
     [Recv_Json (JObj [(''type'', JStr ''audio''), (''data'', JStr ''AACAPw=='')]),
      Recv_Json (JObj [(''type'', JStr ''audio''), (''data'', JStr ''AACAPw=='')]),
      Recv_Json (JObj [(''type'', JStr ''audio''), (''data'', JStr ''AACAPw=='')])] =
     [ready_event 16000, [(''type'', JStr ''transcription''), (''text'', JStr ''hello''), (''final'', JBool False)],
      [(''type'', JStr ''transcription''), (''text'', JStr ''hello world''), (''final'', JBool False)]]"
    by (simp add: sr)
  show ?thesis
    using m up
    by (simp add: ev is_partial_def is_transcription_def ready_event_def)
qed

lemma session_extends:
  assumes "send_json tr ev s = (None, s1)"
  shows "\<exists>evs. outbound (snd (finish tr b (loop e m tr c s1 frames))) = outbound s @ ev # evs"
proof -
  from assms have o: "outbound s1 = outbound s @ [ev]" by (rule send_json_None_outbound)
  from extends_outbound [OF loop_extends [of s1 e m tr c frames]] obtain evs where
    l: "outbound (exit_st (loop e m tr c s1 frames)) = outbound s1 @ evs" by blast
  show ?thesis
  proof (cases "loop e m tr c s1 frames")
    case (Awaiting c2 s2)
    with l o show ?thesis by (simp add: finish_def)
  next
    case (Broke s2)
    with l o show ?thesis by (simp add: finish_def)
  next
    case (Escaped x s2)
    obtain r s3 where sj: "send_json tr (error_event (str x)) s2 = (r, s3)"
      by (cases "send_json tr (error_event (str x)) s2")
    from extends_outbound [OF extends_send_json' [OF sj]] obtain evs' where
      "outbound s3 = outbound s2 @ evs'" by blast
    with Escaped l o sj show ?thesis
      by (cases r) (simp_all add: finish_def)
  qed
qed

section \<open>The ready event\<close>

text \<open>
  Claim C7, amended. When \<open>transcribe_stream\<close> and \<open>__enter__\<close> succeed and the transport
  accepts a frame, the first event the client receives is the ready event, which is no
  transcription event, so that every transcription event comes after it. Its fields are
  \<open>type\<close>, \<open>sample_rate\<close>, which is the sample rate of the model's preprocessor, and
  \<open>message\<close>, a fixed text; no field holds the context window.
\<close>

theorem ready_first:
  assumes m: "stt_model e = Some m"
    and ts: "transcribe_stream m context_size False = Inr t"
    and en: "enter m t = Inr c0"
    and up: "accepts tr 0"
  shows "(\<exists>evs. emitted e tr frames = ready_event (sample_rate m) # evs) \<and>
         \<not> is_transcription (ready_event (sample_rate m)) \<and>
         map fst (ready_event (sample_rate m)) = [''type'', ''sample_rate'', ''message''] \<and>
         map_of (ready_event (sample_rate m)) ''sample_rate'' = Some (JInt (sample_rate m)) \<and>
         context_size_json \<notin> set (map snd (ready_event (sample_rate m)))"
proof -
  let ?s2 = "record_action Entered (record_action Stream_Opened init)"
  let ?s3 = "\<lparr>log = log ?s2 @ [Sent (ready_event (sample_rate m))], attempts = Suc (attempts ?s2)\<rparr>"
  from up have sj: "send_json tr (ready_event (sample_rate m)) ?s2 = (None, ?s3)"
    by (simp add: send_json_def record_action_def init_def)
  have "realtime_transcription e tr frames = finish tr True (loop e m tr c0 ?s3 frames)"
    using m ts en sj by (simp add: realtime_transcription_def try_block_def Let_def)
  moreover have "outbound ?s2 = []"
    by (simp add: outbound_record_action)
  ultimately have "\<exists>evs. emitted e tr frames = ready_event (sample_rate m) # evs"
    using session_extends [OF sj, of True e m c0 frames] by (simp add: emitted_def)
  then show ?thesis
    by (simp add: ready_event_def is_transcription_def context_size_json_def)
qed

text \<open>A session of one chunk and \<open>end\<close>.\<close>

theorem ready_first_witness:
  "stt_model (test_env [''hello'']) = Some (scripted_engine [''hello'']) \<and>
   accepts reliable 0 \<and>
   emitted (test_env [''hello'']) reliable [audio_frame ''AACAPw=='', end_frame] =
     ready_event 16000 #
       [transcription_event ''hello'' False, transcription_event ''hello'' True, done_event]"
proof -
  have m: "stt_model (test_env [''hello'']) = Some (scripted_engine [''hello''])"
    by (simp add: test_env_def)
  have ts: "transcribe_stream (scripted_engine [''hello'']) context_size False =
              Inr ([], [''hello''])"
    by (simp add: scripted_engine_def)
  have en: "enter (scripted_engine [''hello'']) ([], [''hello'']) = Inr ([], [''hello''])"
    by (simp add: scripted_engine_def)
  have up: "accepts reliable 0" by (simp add: accepts_def reliable_def)
  have ev: "emitted (test_env [''hello'']) reliable [audio_frame ''AACAPw=='', end_frame] =
     [ready_event 16000, transcription_event ''hello'' False,
      transcription_event ''hello'' True, done_event]"
    by code_simp
  from ready_first [OF m ts en up, of "[audio_frame ''AACAPw=='', end_frame]"]
  have "\<exists>evs. emitted (test_env [''hello'']) reliable [audio_frame ''AACAPw=='', end_frame] =
          ready_event (sample_rate (scripted_engine [''hello''])) # evs"
    by (rule conjunct1)
  with m up ev show ?thesis by simp
qed

text \<open>
  Claim C7 as stated fails: the ready event of a session is the dict below, in which the
  context window \<open>(256, 256)\<close> does not occur.
\<close>

theorem ready_without_context_counterexample:
  "hd (emitted (test_env []) reliable []) =
     [(''type'', JStr ''ready''), (''sample_rate'', JInt 16000),
      (''message'',
       JStr ''Ready to receive audio. Send audio chunks as base64-encoded WAV data.'')] \<and>
   context_size_json \<notin> set (map snd (hd (emitted (test_env []) reliable [])))"
  by code_simp

end
